theory Spec2Isabelle
  imports Complex_Main
begin

section \<open>Python values\<close>

text \<open>
  The integration handles decoded JSON without checking its shape, so the model keeps
  Python's dynamic values: \<open>None\<close>, booleans, numbers (ints and floats, idealised as
  reals), strings, lists and dicts (association lists in insertion order).
\<close>

datatype pyval =
    PNone
  | PBool bool
  | PNum real
  | PStr string
  | PList "pyval list"
  | PDict "(pyval \<times> pyval) list"

type_synonym pydict = "(pyval \<times> pyval) list"

datatype error =
    TimeoutError
  | ClientError
  | JSONDecodeError
  | AttributeError
  | TypeError
  | HTTPError nat
  | Exception string

text \<open>Truth value testing (\<open>if x:\<close>, \<open>not x\<close>, \<open>x or y\<close>).\<close>

fun truthy :: "pyval \<Rightarrow> bool" where
  "truthy PNone = False"
| "truthy (PBool b) = b"
| "truthy (PNum r) = (r \<noteq> 0)"
| "truthy (PStr s) = (s \<noteq> [])"
| "truthy (PList xs) = (xs \<noteq> [])"
| "truthy (PDict kvs) = (kvs \<noteq> [])"

text \<open>Lists and dicts are unhashable: using one as a dict key raises TypeError.\<close>

fun hashable :: "pyval \<Rightarrow> bool" where
  "hashable (PList xs) = False"
| "hashable (PDict kvs) = False"
| "hashable v = True"

text \<open>Dict keys compare by Python equality, under which \<open>True == 1\<close> and \<open>False == 0\<close>.\<close>

fun hkey :: "pyval \<Rightarrow> pyval" where
  "hkey (PBool b) = PNum (if b then 1 else 0)"
| "hkey v = v"

fun dict_lookup :: "pydict \<Rightarrow> pyval \<Rightarrow> pyval option" where
  "dict_lookup [] k = None"
| "dict_lookup ((k', v) # kvs) k = (if hkey k' = hkey k then Some v else dict_lookup kvs k)"

text \<open>\<open>d[k] = v\<close> on a hashable key: an existing key keeps its place, a new one goes last.\<close>

fun dict_put :: "pyval \<Rightarrow> pyval \<Rightarrow> pydict \<Rightarrow> pydict" where
  "dict_put k v [] = [(k, v)]"
| "dict_put k v ((k', v') # kvs) =
     (if hkey k' = hkey k then (k', v) # kvs else (k', v') # dict_put k v kvs)"

definition dict_set :: "pyval \<Rightarrow> pyval \<Rightarrow> pydict \<Rightarrow> error + pydict" where
  "dict_set k v d = (if hashable k then Inr (dict_put k v d) else Inl TypeError)"

text \<open>\<open>obj.get(key, default)\<close>: only a dict has the method.\<close>

definition py_get :: "pyval \<Rightarrow> pyval \<Rightarrow> pyval \<Rightarrow> error + pyval" where
  "py_get obj k dflt =
     (case obj of
        PDict kvs \<Rightarrow>
          (if hashable k
           then Inr (case dict_lookup kvs k of None \<Rightarrow> dflt | Some v \<Rightarrow> v)
           else Inl TypeError)
      | _ \<Rightarrow> Inl AttributeError)"

text \<open>\<open>for x in obj\<close>: a list yields its items, a dict its keys, a string its characters.\<close>

definition py_iter :: "pyval \<Rightarrow> error + pyval list" where
  "py_iter obj =
     (case obj of
        PList xs \<Rightarrow> Inr xs
      | PDict kvs \<Rightarrow> Inr (map fst kvs)
      | PStr s \<Rightarrow> Inr (map (\<lambda>c. PStr [c]) s)
      | _ \<Rightarrow> Inl TypeError)"

text \<open>\<open>str.split(sep)\<close> for a one-character separator.\<close>

fun split_on :: "char \<Rightarrow> string \<Rightarrow> string list" where
  "split_on c [] = [[]]"
| "split_on c (x # xs) =
     (if x = c then [] # split_on c xs
      else (case split_on c xs of [] \<Rightarrow> [[x]] | p # ps \<Rightarrow> (x # p) # ps))"

text \<open>\<open>str.lower()\<close> on ASCII letters, and the substring test \<open>p in s\<close>.\<close>

definition lower_char :: "char \<Rightarrow> char" where
  "lower_char c =
     (let n = (of_char c :: nat) in if 65 \<le> n \<and> n \<le> 90 then char_of (n + 32) else c)"

definition str_lower :: "string \<Rightarrow> string" where
  "str_lower s = map lower_char s"

fun starts_with :: "string \<Rightarrow> string \<Rightarrow> bool" where
  "starts_with [] s = True"
| "starts_with (p # ps) [] = False"
| "starts_with (p # ps) (c # cs) = (p = c \<and> starts_with ps cs)"

fun str_contains :: "string \<Rightarrow> string \<Rightarrow> bool" where
  "str_contains p [] = (p = [])"
| "str_contains p (c # cs) = (starts_with p (c # cs) \<or> str_contains p cs)"

section \<open>Python floats\<close>

text \<open>
  A float is an IEEE double: an arithmetic result is the exact result rounded to the
  nearest double, ties to the even one. \<open>binade x\<close> is the exponent \<open>e\<close> with
  \<open>2^e \<le> x < 2^(e+1)\<close>, and the doubles there are the multiples of \<open>2^(e-52)\<close>
  (of \<open>2^(-1074)\<close> below \<open>2^(-1022)\<close>). Overflow is not modelled.
\<close>

fun bits_upto :: "nat \<Rightarrow> nat \<Rightarrow> nat" where
  "bits_upto 0 n = 0"
| "bits_upto (Suc k) n = (if n = 0 then 0 else Suc (bits_upto k (n div 2)))"

text \<open>The number of binary digits of \<open>n\<close> (\<open>int.bit_length\<close>); \<open>n\<close> steps are enough.\<close>

definition bit_length :: "nat \<Rightarrow> nat" where
  "bit_length n = bits_upto n n"

definition round_half_even :: "real \<Rightarrow> int" where
  "round_half_even y =
     (let f = \<lfloor>y\<rfloor>; d = y - of_int f
      in if d < 1 / 2 then f else if 1 / 2 < d then f + 1 else if even f then f else f + 1)"

definition binade :: "real \<Rightarrow> int" where
  "binade x =
     (if 1 \<le> x then int (bit_length (nat \<lfloor>x\<rfloor>)) - 1
      else - int (bit_length (nat \<lceil>1 / x\<rceil> - 1)))"

definition pow2 :: "int \<Rightarrow> real" where
  "pow2 k = (if 0 \<le> k then 2 ^ nat k else 1 / 2 ^ nat (- k))"

definition float_round :: "real \<Rightarrow> real" where
  "float_round x =
     (if x = 0 then 0
      else
        let a = \<bar>x\<bar>; ulp = pow2 (max (binade a) (- 1022) - 52)
        in sgn x * of_int (round_half_even (a / ulp)) * ulp)"

definition float_add :: "real \<Rightarrow> real \<Rightarrow> real" where
  "float_add x y = float_round (x + y)"

section \<open>The environment of the client\<close>

text \<open>
  One constructor per endpoint of \<open>const.py\<close>, holding the values the URL template is
  filled with. Headers are not modelled.
\<close>

datatype request =
    ReqLogin string string
  | ReqStations int int
  | ReqDevicePage pyval string int int
  | ReqComponent pyval string
  | ReqStationInfo pyval
  | ReqReport pyval string string
  | ReqDeviceWifi pyval
  | ReqBatteryLinks pyval

text \<open>
  What \<open>session.post\<close>/\<open>session.get\<close> followed by \<open>resp.text()\<close> gives: a timeout,
  another raised error, or a status with the body text.
\<close>

datatype http_result = HTimeout | HError | HResp nat string

record datetime =
  year :: nat
  month :: nat
  day :: nat

text \<open>
  Everything outside the program is an oracle. The server, the clock and the random
  generator are indexed by the number of interactions made so far (\<open>tick\<close>), so they may
  answer differently every time; \<open>json_loads\<close>, \<open>urlsafe_b64decode\<close> and
  \<open>float_of_str\<close> stand for the library functions (\<open>None\<close> where they raise).
  \<open>random_bits\<close> are the random bits \<open>random.random()\<close> draws.
\<close>

record env =
  http :: "nat \<Rightarrow> request \<Rightarrow> http_result"
  time_time :: "nat \<Rightarrow> real"
  random_bits :: "nat \<Rightarrow> int"
  datetime_now :: "nat \<Rightarrow> datetime"
  json_loads :: "string \<Rightarrow> pyval option"
  urlsafe_b64decode :: "string \<Rightarrow> string option"
  float_of_str :: "string \<Rightarrow> real option"

text \<open>\<open>random.random()\<close>: 53 random bits \<open>k\<close> as the double \<open>k / 2^53\<close>, in \<open>[0, 1)\<close>.\<close>

definition random_random :: "env \<Rightarrow> nat \<Rightarrow> real" where
  "random_random e t = of_int (random_bits e t mod 2 ^ 53) / 2 ^ 53"

datatype operation = OpLogin | OpFetch

text \<open>
  What the client does to the outside, in order: a call of \<open>async_login\<close>, the POST of a
  login attempt, the GET of a fetch attempt, and the sleep after the given attempt.
\<close>

datatype event =
    LoginCall
  | Post
  | Get request
  | Sleep operation nat real

text \<open>
  The fields of \<open>IzyClient\<close>, with the interaction counter and two logs: \<open>trace\<close> of
  the events above, \<open>calls\<close> of every finished fetch operation with its outcome.
\<close>

record state =
  username :: string
  password :: string
  token :: pyval
  expiry :: "real option"
  tick :: nat
  trace :: "event list"
  calls :: "(request \<times> (error + pyval)) list"

definition emit :: "event \<Rightarrow> state \<Rightarrow> state" where
  "emit e s = s\<lparr>trace := trace s @ [e]\<rparr>"

definition step :: "state \<Rightarrow> state" where
  "step s = s\<lparr>tick := tick s + 1\<rparr>"

section \<open>client.py\<close>

text \<open>
  \<open>float(x)\<close>: a number or a boolean converts, a string is parsed (the empty string
  never parses), everything else raises.
\<close>

definition py_float :: "env \<Rightarrow> pyval \<Rightarrow> real option" where
  "py_float e v =
     (case v of
        PNum r \<Rightarrow> Some r
      | PBool b \<Rightarrow> Some (if b then 1 else 0)
      | PStr s \<Rightarrow> if s = [] then None else float_of_str e s
      | _ \<Rightarrow> None)"

text \<open>
  \<open>_decode_jwt_exp\<close>: every exception inside is caught and gives \<open>None\<close>
  (\<open>token.split\<close> on a non-string, the two decoders, \<open>payload.get\<close> on a non-dict,
  \<open>float\<close>).
\<close>

definition decode_jwt_exp :: "env \<Rightarrow> pyval \<Rightarrow> real option" where
  "decode_jwt_exp e tok =
     (case tok of
        PStr t \<Rightarrow>
          (let parts = split_on CHR ''.'' t in
           if length parts < 2 then None
           else
             let payload_b64 = parts ! 1;
                 padding = replicate ((4 - length payload_b64 mod 4) mod 4) CHR ''='' in
             (case urlsafe_b64decode e (payload_b64 @ padding) of
                None \<Rightarrow> None
              | Some payload_bytes \<Rightarrow>
                  (case json_loads e payload_bytes of
                     None \<Rightarrow> None
                   | Some payload \<Rightarrow>
                       (case py_get payload (PStr ''exp'') PNone of
                          Inl err \<Rightarrow> None
                        | Inr expv \<Rightarrow> if truthy expv then py_float e expv else None))))
      | _ \<Rightarrow> None)"

text \<open>\<open>data.get("data", {}).get("token")\<close> when \<open>data\<close> is a dict, else \<open>None\<close>.\<close>

definition token_of :: "pyval \<Rightarrow> error + pyval" where
  "token_of data =
     (case data of
        PDict kvs \<Rightarrow>
          (case py_get data (PStr ''data'') (PDict []) of
             Inl err \<Rightarrow> Inl err
           | Inr d \<Rightarrow> py_get d (PStr ''token'') PNone)
      | _ \<Rightarrow> Inr PNone)"

text \<open>
  The assignments after a token was found: the decoded expiry when it is truthy, else
  \<open>time.time() + 600\<close>.
\<close>

definition store_token :: "env \<Rightarrow> pyval \<Rightarrow> state \<Rightarrow> state" where
  "store_token e tok s =
     (let s1 = s\<lparr>token := tok\<rparr> in
      case decode_jwt_exp e tok of
        None \<Rightarrow> step (s1\<lparr>expiry := Some (time_time e (tick s1) + 600)\<rparr>)
      | Some expv \<Rightarrow>
          if expv \<noteq> 0 then s1\<lparr>expiry := Some expv\<rparr>
          else step (s1\<lparr>expiry := Some (time_time e (tick s1) + 600)\<rparr>))"

text \<open>The body of the \<open>try\<close> of one login attempt.\<close>

definition login_attempt :: "env \<Rightarrow> state \<Rightarrow> (error + unit) \<times> state" where
  "login_attempt e s =
     (let s1 = step (emit Post s) in
      case http e (tick s) (ReqLogin (username s) (password s)) of
        HTimeout \<Rightarrow> (Inl TimeoutError, s1)
      | HError \<Rightarrow> (Inl ClientError, s1)
      | HResp status text \<Rightarrow>
          (case json_loads e text of
             None \<Rightarrow> (Inl JSONDecodeError, s1)
           | Some data \<Rightarrow>
               (case token_of data of
                  Inl err \<Rightarrow> (Inl err, s1)
                | Inr tok \<Rightarrow>
                    if \<not> truthy tok
                    then (Inl (Exception ''Login failed: no token returned''), s1)
                    else (Inr (), store_token e tok s1))))"

text \<open>
  \<open>jitter = random.random() * 0.5\<close> and
  \<open>wait = backoff_base * (2 ** (attempt - 1)) + jitter\<close>, then \<open>asyncio.sleep(wait)\<close>.
  Halving a double and multiplying a small integer by \<open>1.0\<close> are exact; the addition
  rounds.
\<close>

definition backoff_sleep :: "env \<Rightarrow> operation \<Rightarrow> nat \<Rightarrow> state \<Rightarrow> state" where
  "backoff_sleep e who attempt s =
     (let jitter = random_random e (tick s) * 0.5;
          wait = float_add (1.0 * (2 ^ (attempt - 1))) jitter
      in step (emit (Sleep who attempt wait) s))"

definition login_max_attempts :: nat where
  "login_max_attempts = 2"

definition login_failure :: error where
  "login_failure = Exception ''Login failed after retries''"

text \<open>The \<open>for attempt in range(1, max_attempts + 1)\<close> of \<open>async_login\<close>.\<close>

fun login_loop :: "env \<Rightarrow> nat list \<Rightarrow> state \<Rightarrow> (error + unit) \<times> state" where
  "login_loop e [] s = (Inl login_failure, s)"
| "login_loop e (attempt # rest) s =
     (case login_attempt e s of
        (Inr u, s1) \<Rightarrow> (Inr u, s1)
      | (Inl err, s1) \<Rightarrow>
          login_loop e rest
            (if attempt < login_max_attempts then backoff_sleep e OpLogin attempt s1 else s1))"

definition async_login :: "env \<Rightarrow> state \<Rightarrow> (error + unit) \<times> state" where
  "async_login e s = login_loop e [1 ..< login_max_attempts + 1] (emit LoginCall s)"

text \<open>\<open>_token_is_valid\<close>; the clock is read only when both fields are truthy.\<close>

definition token_is_valid :: "env \<Rightarrow> state \<Rightarrow> bool \<times> state" where
  "token_is_valid e s =
     (if \<not> truthy (token s) \<or> \<not> (case expiry s of None \<Rightarrow> False | Some x \<Rightarrow> x \<noteq> 0)
      then (False, s)
      else (time_time e (tick s) < the (expiry s) - 10, step s))"

text \<open>
  The body of the \<open>try\<close> of one fetch attempt. The seven fetch methods of the client are
  the same text up to the URL, the log messages and the final message.
\<close>

definition fetch_attempt :: "env \<Rightarrow> request \<Rightarrow> state \<Rightarrow> (error + pyval) \<times> state" where
  "fetch_attempt e req s =
     (let (valid, s0) = token_is_valid e s;
          (logged_in, s1) = (if \<not> valid then async_login e s0 else (Inr (), s0))
      in case logged_in of
           Inl err \<Rightarrow> (Inl err, s1)
         | Inr u \<Rightarrow>
             (let s2 = step (emit (Get req) s1) in
              case http e (tick s1) req of
                HTimeout \<Rightarrow> (Inl TimeoutError, s2)
              | HError \<Rightarrow> (Inl ClientError, s2)
              | HResp status text \<Rightarrow>
                  if status = 401 then
                    (case async_login e s2 of
                       (Inl err, s3) \<Rightarrow> (Inl err, s3)
                     | (Inr u, s3) \<Rightarrow> (Inl (Exception ''Unauthorized''), s3))
                  else if 500 \<le> status \<and> status < 600 then (Inl (HTTPError status), s2)
                  else if status \<noteq> 200 then (Inl (HTTPError status), s2)
                  else (case json_loads e text of
                          None \<Rightarrow> (Inl JSONDecodeError, s2)
                        | Some v \<Rightarrow> (Inr v, s2))))"

definition fetch_max_attempts :: nat where
  "fetch_max_attempts = 3"

fun resource_name :: "request \<Rightarrow> string" where
  "resource_name (ReqLogin u p) = ''login''"
| "resource_name (ReqStations p l) = ''stations''"
| "resource_name (ReqDevicePage c t p l) = ''device page''"
| "resource_name (ReqComponent c d) = ''component''"
| "resource_name (ReqStationInfo c) = ''station info''"
| "resource_name (ReqReport c d t) = ''report''"
| "resource_name (ReqDeviceWifi sn) = ''device WiFi''"
| "resource_name (ReqBatteryLinks sn) = ''battery links''"

text \<open>The exception raised after the loop of a fetch method.\<close>

definition fetch_failure :: "request \<Rightarrow> error" where
  "fetch_failure req = Exception (''Failed to fetch '' @ resource_name req @ '' after retries'')"

fun fetch_loop :: "env \<Rightarrow> request \<Rightarrow> nat list \<Rightarrow> state \<Rightarrow> (error + pyval) \<times> state" where
  "fetch_loop e req [] s = (Inl (fetch_failure req), s)"
| "fetch_loop e req (attempt # rest) s =
     (case fetch_attempt e req s of
        (Inr v, s1) \<Rightarrow> (Inr v, s1)
      | (Inl err, s1) \<Rightarrow>
          fetch_loop e req rest
            (if attempt < fetch_max_attempts then backoff_sleep e OpFetch attempt s1 else s1))"

definition fetch :: "env \<Rightarrow> request \<Rightarrow> state \<Rightarrow> (error + pyval) \<times> state" where
  "fetch e req s =
     (let (r, s1) = fetch_loop e req [1 ..< fetch_max_attempts + 1] s
      in (r, s1\<lparr>calls := calls s1 @ [(req, r)]\<rparr>))"

definition async_get_stations :: "env \<Rightarrow> int \<Rightarrow> int \<Rightarrow> state \<Rightarrow> (error + pyval) \<times> state" where
  "async_get_stations e page limit = fetch e (ReqStations page limit)"

definition async_get_device_page ::
  "env \<Rightarrow> pyval \<Rightarrow> string \<Rightarrow> int \<Rightarrow> int \<Rightarrow> state \<Rightarrow> (error + pyval) \<times> state" where
  "async_get_device_page e component_id device_type page limit =
     fetch e (ReqDevicePage component_id device_type page limit)"

definition async_get_component :: "env \<Rightarrow> pyval \<Rightarrow> string \<Rightarrow> state \<Rightarrow> (error + pyval) \<times> state" where
  "async_get_component e component_id date = fetch e (ReqComponent component_id date)"

definition async_get_station_info :: "env \<Rightarrow> pyval \<Rightarrow> state \<Rightarrow> (error + pyval) \<times> state" where
  "async_get_station_info e component_id = fetch e (ReqStationInfo component_id)"

definition async_get_report ::
  "env \<Rightarrow> pyval \<Rightarrow> string \<Rightarrow> string \<Rightarrow> state \<Rightarrow> (error + pyval) \<times> state" where
  "async_get_report e component_id date time_type = fetch e (ReqReport component_id date time_type)"

definition async_get_device_wifi :: "env \<Rightarrow> pyval \<Rightarrow> state \<Rightarrow> (error + pyval) \<times> state" where
  "async_get_device_wifi e serial_number = fetch e (ReqDeviceWifi serial_number)"

definition async_get_battery_links :: "env \<Rightarrow> pyval \<Rightarrow> state \<Rightarrow> (error + pyval) \<times> state" where
  "async_get_battery_links e serial_number = fetch e (ReqBatteryLinks serial_number)"

section \<open>The polling cycle of \<open>__init__.py\<close>\<close>

text \<open>\<open>datetime.strftime\<close> with the directives \<open>%Y\<close>, \<open>%m\<close> and \<open>%d\<close>.\<close>

definition digit_char :: "nat \<Rightarrow> char" where
  "digit_char n = char_of (48 + n mod 10)"

definition fmt_Y :: "nat \<Rightarrow> string" where
  "fmt_Y y = [digit_char (y div 1000), digit_char (y div 100), digit_char (y div 10), digit_char y]"

definition fmt_2 :: "nat \<Rightarrow> string" where
  "fmt_2 n = [digit_char (n div 10), digit_char n]"

fun strftime :: "datetime \<Rightarrow> string \<Rightarrow> string" where
  "strftime d [] = []"
| "strftime d [c] = [c]"
| "strftime d (c # f # fs) =
     (if c = CHR ''%'' \<and> f = CHR ''Y'' then fmt_Y (year d) @ strftime d fs
      else if c = CHR ''%'' \<and> f = CHR ''m'' then fmt_2 (month d) @ strftime d fs
      else if c = CHR ''%'' \<and> f = CHR ''d'' then fmt_2 (day d) @ strftime d fs
      else c # strftime d (f # fs))"

text \<open>The date format chosen per report window (the \<open>if\<close>/\<open>elif\<close>/\<open>else\<close> of the loop).\<close>

definition search_time :: "datetime \<Rightarrow> string \<Rightarrow> string" where
  "search_time now time_type =
     (if time_type \<in> set [''all'', ''day''] then strftime now ''%Y-%m-%d''
      else if time_type = ''month'' then strftime now ''%Y-%m''
      else strftime now ''%Y'')"

text \<open>One window of the report loop: its own \<open>try\<close>/\<open>except\<close>.\<close>

definition fetch_report ::
  "env \<Rightarrow> datetime \<Rightarrow> pyval \<Rightarrow> string \<Rightarrow> pydict \<Rightarrow> state \<Rightarrow> pydict \<times> state" where
  "fetch_report e now station_id time_type reports s =
     (case async_get_report e station_id (search_time now time_type) time_type s of
        (Inr report_data, s1) \<Rightarrow> (dict_put (PStr time_type) report_data reports, s1)
      | (Inl exc, s1) \<Rightarrow> (dict_put (PStr time_type) (PDict []) reports, s1))"

fun report_loop ::
  "env \<Rightarrow> datetime \<Rightarrow> pyval \<Rightarrow> string list \<Rightarrow> pydict \<Rightarrow> state \<Rightarrow> pydict \<times> state" where
  "report_loop e now station_id [] reports s = (reports, s)"
| "report_loop e now station_id (time_type # rest) reports s =
     (case fetch_report e now station_id time_type reports s of
        (reports1, s1) \<Rightarrow> report_loop e now station_id rest reports1 s1)"

definition fetch_component :: "env \<Rightarrow> datetime \<Rightarrow> pyval \<Rightarrow> state \<Rightarrow> pyval \<times> state" where
  "fetch_component e now station_id s =
     (case async_get_component e station_id (strftime now ''%Y-%m-%d'') s of
        (Inr component_data, s1) \<Rightarrow> (component_data, s1)
      | (Inl exc, s1) \<Rightarrow> (PDict [], s1))"

text \<open>The code \<open>\<rightarrow>\<close> name map built from the \<open>deviceTypes\<close> of the station info.\<close>

fun type_mapping_loop :: "pyval list \<Rightarrow> pydict \<Rightarrow> error + pydict" where
  "type_mapping_loop [] m = Inr m"
| "type_mapping_loop (device_type_info # rest) m =
     (case py_get device_type_info (PStr ''value'') PNone of
        Inl err \<Rightarrow> Inl err
      | Inr type_code \<Rightarrow>
          (case py_get device_type_info (PStr ''name'') PNone of
             Inl err \<Rightarrow> Inl err
           | Inr type_name \<Rightarrow>
               if truthy type_code \<and> truthy type_name then
                 (case dict_set type_code type_name m of
                    Inl err \<Rightarrow> Inl err
                  | Inr m1 \<Rightarrow> type_mapping_loop rest m1)
               else type_mapping_loop rest m))"

definition device_type_mapping :: "pyval \<Rightarrow> error + pydict" where
  "device_type_mapping station_info =
     (case py_get station_info (PStr ''deviceTypes'') (PList []) of
        Inl err \<Rightarrow> Inl err
      | Inr device_types_enum \<Rightarrow>
          (case py_iter device_types_enum of
             Inl err \<Rightarrow> Inl err
           | Inr infos \<Rightarrow> type_mapping_loop infos []))"

text \<open>
  The battery test of a device record: the name the map gives for the raw code
  (\<open>""\<close> when it has none), lower-cased, contains \<open>battery\<close>, or the raw code is the
  string \<open>battery\<close>. \<open>.lower()\<close> exists on strings only.
\<close>

definition is_battery :: "pydict \<Rightarrow> pyval \<Rightarrow> error + bool" where
  "is_battery mapping device_record =
     (case py_get device_record (PStr ''deviceType'') PNone of
        Inl err \<Rightarrow> Inl err
      | Inr device_type_code \<Rightarrow>
          (case py_get (PDict mapping) device_type_code (PStr '''') of
             Inl err \<Rightarrow> Inl err
           | Inr name \<Rightarrow>
               (case name of
                  PStr n \<Rightarrow>
                    (let device_type_name = str_lower n in
                     Inr (str_contains ''battery'' device_type_name
                          \<or> device_type_code = PStr ''battery''))
                | _ \<Rightarrow> Inl AttributeError)))"

text \<open>
  \<open>try: d[k] = await fetch(...)\<close> with \<open>except Exception: d[k] = {}\<close>: the handler
  also runs, and raises again, when the key is unhashable.
\<close>

definition store_or_empty :: "pyval \<Rightarrow> error + pyval \<Rightarrow> pydict \<Rightarrow> error + pydict" where
  "store_or_empty k r d =
     (case r of
        Inr data \<Rightarrow>
          (case dict_set k data d of
             Inr d1 \<Rightarrow> Inr d1
           | Inl err \<Rightarrow> dict_set k (PDict []) d)
      | Inl exc \<Rightarrow> dict_set k (PDict []) d)"

text \<open>
  One device record of the device loop; \<open>wifi\<close> and \<open>links\<close> are the dicts under
  \<open>wifi_data\<close> and \<open>battery_links\<close>. An error here is caught by the \<open>except\<close> of the
  device page.
\<close>

definition device_step ::
  "env \<Rightarrow> pydict \<Rightarrow> pyval \<Rightarrow> pydict \<times> pydict \<Rightarrow> state \<Rightarrow> (error + pydict \<times> pydict) \<times> state" where
  "device_step e mapping device_record wl s =
     (case wl of (wifi, links) \<Rightarrow>
      case py_get device_record (PStr ''sn'') PNone of
        Inl err \<Rightarrow> (Inl err, s)
      | Inr sn \<Rightarrow>
      case (if truthy sn then Inr sn else py_get device_record (PStr ''serialNumber'') PNone) of
        Inl err \<Rightarrow> (Inl err, s)
      | Inr device_sn \<Rightarrow>
      case py_get device_record (PStr ''deviceId'') PNone of
        Inl err \<Rightarrow> (Inl err, s)
      | Inr device_id \<Rightarrow>
          if \<not> truthy device_sn then (Inr (wifi, links), s)
          else
            (case async_get_device_wifi e device_sn s of (wifi_result, s1) \<Rightarrow>
             case store_or_empty device_sn wifi_result wifi of
               Inl err \<Rightarrow> (Inl err, s1)
             | Inr wifi1 \<Rightarrow>
             case is_battery mapping device_record of
               Inl err \<Rightarrow> (Inl err, s1)
             | Inr False \<Rightarrow> (Inr (wifi1, links), s1)
             | Inr True \<Rightarrow>
                 (case async_get_battery_links e device_sn s1 of (links_result, s2) \<Rightarrow>
                  if truthy device_id then
                    (case store_or_empty device_id links_result links of
                       Inl err \<Rightarrow> (Inl err, s2)
                     | Inr links1 \<Rightarrow> (Inr (wifi1, links1), s2))
                  else (Inr (wifi1, links), s2))))"

fun device_loop ::
  "env \<Rightarrow> pydict \<Rightarrow> pyval list \<Rightarrow> pydict \<times> pydict \<Rightarrow> state \<Rightarrow> (error + pydict \<times> pydict) \<times> state" where
  "device_loop e mapping [] wl s = (Inr wl, s)"
| "device_loop e mapping (device_record # rest) wl s =
     (case device_step e mapping device_record wl s of
        (Inl err, s1) \<Rightarrow> (Inl err, s1)
      | (Inr wl1, s1) \<Rightarrow> device_loop e mapping rest wl1 s1)"

text \<open>
  The \<open>try\<close> block of the device page. Its result is the dict stored under the station:
  the page with \<open>wifi_data\<close> and \<open>battery_links\<close> added (the two dicts are created empty
  before the loop and filled in place by it).
\<close>

definition device_block :: "env \<Rightarrow> pyval \<Rightarrow> pyval \<Rightarrow> state \<Rightarrow> (error + pyval) \<times> state" where
  "device_block e station_info station_id s =
     (case async_get_device_page e station_id ''all'' 1 100 s of
        (Inl err, s1) \<Rightarrow> (Inl err, s1)
      | (Inr device_page_data, s1) \<Rightarrow>
      case device_type_mapping station_info of
        Inl err \<Rightarrow> (Inl err, s1)
      | Inr mapping \<Rightarrow>
      case py_get device_page_data (PStr ''data'') (PDict []) of
        Inl err \<Rightarrow> (Inl err, s1)
      | Inr data \<Rightarrow>
      case py_get data (PStr ''records'') (PList []) of
        Inl err \<Rightarrow> (Inl err, s1)
      | Inr device_records \<Rightarrow>
      case device_page_data of
        PDict page \<Rightarrow>
          (let page1 = dict_put (PStr ''wifi_data'') (PDict []) page;
               page2 = dict_put (PStr ''battery_links'') (PDict []) page1 in
           case py_iter device_records of
             Inl err \<Rightarrow> (Inl err, s1)
           | Inr records \<Rightarrow>
           case device_loop e mapping records ([], []) s1 of
             (Inl err, s2) \<Rightarrow> (Inl err, s2)
           | (Inr (wifi, links), s2) \<Rightarrow>
               (Inr (PDict (dict_put (PStr ''battery_links'') (PDict links)
                             (dict_put (PStr ''wifi_data'') (PDict wifi) page2))), s2))
      | _ \<Rightarrow> (Inl AttributeError, s1))"

definition fetch_devices :: "env \<Rightarrow> pyval \<Rightarrow> pyval \<Rightarrow> state \<Rightarrow> pyval \<times> state" where
  "fetch_devices e station_info station_id s =
     (case device_block e station_info station_id s of
        (Inr devices, s1) \<Rightarrow> (devices, s1)
      | (Inl device_exc, s1) \<Rightarrow> (PDict [], s1))"

text \<open>The four dicts the cycle fills, and the returned dict with the station list added.\<close>

record acc =
  stations_info :: pydict
  stations_reports :: pydict
  stations_component :: pydict
  stations_devices :: pydict

record snapshot = acc +
  stations :: pyval

text \<open>
  The outer \<open>try\<close> of one station with a truthy identifier. Its \<open>except\<close> is reached
  from the station-info fetch and from \<open>stations_info[station_id] = ...\<close> on an
  unhashable identifier; everything after has a handler of its own.
\<close>

definition process_station :: "env \<Rightarrow> datetime \<Rightarrow> pyval \<Rightarrow> acc \<Rightarrow> state \<Rightarrow> acc \<times> state" where
  "process_station e now station_id a s =
     (case async_get_station_info e station_id s of
        (Inl exc, s1) \<Rightarrow> (a, s1)
      | (Inr station_info, s1) \<Rightarrow>
          (case dict_set station_id station_info (stations_info a) of
             Inl exc \<Rightarrow> (a, s1)
           | Inr info1 \<Rightarrow>
               (case report_loop e now station_id [''all'', ''day'', ''month'', ''year''] [] s1 of
                  (reports, s2) \<Rightarrow>
                case fetch_component e now station_id s2 of (component, s3) \<Rightarrow>
                case fetch_devices e station_info station_id s3 of (devices, s4) \<Rightarrow>
                  (a\<lparr>stations_info := info1,
                     stations_reports := dict_put station_id (PDict reports) (stations_reports a),
                     stations_component := dict_put station_id component (stations_component a),
                     stations_devices := dict_put station_id devices (stations_devices a)\<rparr>, s4))))"

text \<open>\<open>for record in records\<close>: \<open>record.get\<close> is outside every \<open>try\<close>.\<close>

fun station_loop ::
  "env \<Rightarrow> datetime \<Rightarrow> pyval list \<Rightarrow> acc \<Rightarrow> state \<Rightarrow> (error + acc) \<times> state" where
  "station_loop e now [] a s = (Inr a, s)"
| "station_loop e now (record # rest) a s =
     (case py_get record (PStr ''stationsId'') PNone of
        Inl err \<Rightarrow> (Inl err, s)
      | Inr station_id \<Rightarrow>
          if truthy station_id then
            (case process_station e now station_id a s of
               (a1, s1) \<Rightarrow> station_loop e now rest a1 s1)
          else station_loop e now rest a s)"

text \<open>\<open>stations_data.get("data", {}).get("records", [])\<close>, made ready for the loop.\<close>

definition records_of :: "pyval \<Rightarrow> error + pyval list" where
  "records_of stations_data =
     (case py_get stations_data (PStr ''data'') (PDict []) of
        Inl err \<Rightarrow> Inl err
      | Inr data \<Rightarrow>
          (case py_get data (PStr ''records'') (PList []) of
             Inl err \<Rightarrow> Inl err
           | Inr records \<Rightarrow> py_iter records))"

definition empty_acc :: acc where
  "empty_acc = \<lparr>stations_info = [], stations_reports = [], stations_component = [],
                stations_devices = []\<rparr>"

definition async_update_data :: "env \<Rightarrow> state \<Rightarrow> (error + snapshot) \<times> state" where
  "async_update_data e s =
     (case async_get_stations e 1 100 s of
        (Inl err, s1) \<Rightarrow> (Inl err, s1)
      | (Inr stations_data, s1) \<Rightarrow>
          (let now = datetime_now e (tick s1); s2 = step s1 in
           case records_of stations_data of
             Inl err \<Rightarrow> (Inl err, s2)
           | Inr records \<Rightarrow>
               (case station_loop e now records empty_acc s2 of
                  (Inl err, s3) \<Rightarrow> (Inl err, s3)
                | (Inr a, s3) \<Rightarrow>
                    (Inr \<lparr>stations_info = stations_info a,
                          stations_reports = stations_reports a,
                          stations_component = stations_component a,
                          stations_devices = stations_devices a,
                          stations = stations_data\<rparr>, s3))))"

section \<open>Observations on runs\<close>

text \<open>The events a run added to the trace.\<close>

definition new_events :: "state \<Rightarrow> state \<Rightarrow> event list" where
  "new_events s s1 = drop (length (trace s)) (trace s1)"

fun is_get :: "event \<Rightarrow> bool" where
  "is_get (Get r) = True"
| "is_get ev = False"

text \<open>The seconds slept after the given attempt when the random draw is made at \<open>t\<close>.\<close>

definition backoff_wait :: "env \<Rightarrow> nat \<Rightarrow> nat \<Rightarrow> real" where
  "backoff_wait e t attempt = float_add (1.0 * (2 ^ (attempt - 1))) (random_random e t * 0.5)"

text \<open>The events of one call of \<open>async_login\<close>: one or two POSTs, with a sleep between.\<close>

definition login_events :: "env \<Rightarrow> event list \<Rightarrow> bool" where
  "login_events e d =
     (d = [LoginCall, Post] \<or>
      (\<exists>t. d = [LoginCall, Post, Sleep OpLogin 1 (backoff_wait e t 1), Post]))"

text \<open>The events of one fetch attempt: an optional login, then the GET, then an optional re-login.\<close>

definition attempt_events :: "env \<Rightarrow> request \<Rightarrow> bool \<Rightarrow> event list \<Rightarrow> bool" where
  "attempt_events e req valid d =
     (\<exists>pre post. d = pre @ post
        \<and> (if valid then pre = [] else login_events e pre)
        \<and> (if valid then post \<noteq> [] else True)
        \<and> (post = [] \<or> post = [Get req] \<or> (\<exists>d2. post = Get req # d2 \<and> login_events e d2)))"

text \<open>How many times \<open>async_login\<close> was called before the first GET.\<close>

definition logins_before_request :: "event list \<Rightarrow> nat" where
  "logins_before_request d =
     length (filter (\<lambda>ev. ev = LoginCall) (takeWhile (\<lambda>ev. \<not> is_get ev) d))"

text \<open>The attempt a sleep of the given loop follows, and the well-formed sleeps.\<close>

fun sleep_after :: "operation \<Rightarrow> event \<Rightarrow> nat option" where
  "sleep_after who (Sleep who1 i w) = (if who1 = who then Some i else None)"
| "sleep_after who ev = None"

definition sleep_ok :: "env \<Rightarrow> event \<Rightarrow> bool" where
  "sleep_ok e ev =
     (case ev of
        Sleep who i w \<Rightarrow>
          (\<exists>t. w = backoff_wait e t i) \<and> 1 \<le> i \<and>
          i < (case who of OpLogin \<Rightarrow> login_max_attempts | OpFetch \<Rightarrow> fetch_max_attempts)
      | _ \<Rightarrow> True)"

text \<open>
  The expiry claim of a token, in the words of the specification: the token is a string
  with a second dot-separated segment which, padded to a multiple of four characters,
  decodes as urlsafe base64 to JSON text of an object whose \<open>exp\<close> entry \<open>float\<close>
  converts to \<open>c\<close>.
\<close>

definition padded :: "string \<Rightarrow> string" where
  "padded p = p @ replicate ((4 - length p mod 4) mod 4) CHR ''=''"

definition expiry_claim :: "env \<Rightarrow> pyval \<Rightarrow> real \<Rightarrow> bool" where
  "expiry_claim e tok c =
     (\<exists>t bytes kvs v.
        tok = PStr t \<and> 2 \<le> length (split_on CHR ''.'' t)
        \<and> urlsafe_b64decode e (padded (split_on CHR ''.'' t ! 1)) = Some bytes
        \<and> json_loads e bytes = Some (PDict kvs)
        \<and> dict_lookup kvs (PStr ''exp'') = Some v
        \<and> py_float e v = Some c)"

section \<open>Scenarios\<close>

text \<open>
  Concrete environments for the examples: a server given as a function, a fixed clock
  and random draw, March 5, 2024 as the date, and a decoder that knows a few bodies.
\<close>

definition toy_json :: "string \<Rightarrow> pyval option" where
  "toy_json body =
     (if body = ''login'' then
        Some (PDict [(PStr ''data'', PDict [(PStr ''token'', PStr ''h.p.s'')])])
      else if body = ''login-exp'' then
        Some (PDict [(PStr ''data'',
                      PDict [(PStr ''token'', PStr ''h.eyJleHAiOjE3MDAwMDAwMDB9.s'')])])
      else if body = ''login-exp0'' then
        Some (PDict [(PStr ''data'', PDict [(PStr ''token'', PStr ''h.eyJleHAiOjB9.s'')])])
      else if body = ''{\"exp\":1700000000}'' then Some (PDict [(PStr ''exp'', PNum 1700000000)])
      else if body = ''{\"exp\":0}'' then Some (PDict [(PStr ''exp'', PNum 0)])
      else if body = ''{}'' then Some (PDict [])
      else None)"

definition toy_b64 :: "string \<Rightarrow> string option" where
  "toy_b64 s =
     (if s = ''eyJleHAiOjE3MDAwMDAwMDB9'' then Some ''{\"exp\":1700000000}''
      else if s = ''eyJleHAiOjB9'' then Some ''{\"exp\":0}''
      else None)"

definition scenario :: "(nat \<Rightarrow> request \<Rightarrow> http_result) \<Rightarrow> env" where
  "scenario srv =
     \<lparr>http = srv, time_time = (\<lambda>t. 1000), random_bits = (\<lambda>t. 2 ^ 51),
      datetime_now = (\<lambda>t. \<lparr>year = 2024, month = 3, day = 5\<rparr>),
      json_loads = toy_json, urlsafe_b64decode = toy_b64, float_of_str = (\<lambda>s. None)\<rparr>"

definition fresh_client :: state where
  "fresh_client =
     \<lparr>username = ''user'', password = ''secret'', token = PNone, expiry = None,
      tick = 0, trace = [], calls = []\<rparr>"

definition ok_server :: "nat \<Rightarrow> request \<Rightarrow> http_result" where
  "ok_server t req = (case req of ReqLogin u p \<Rightarrow> HResp 200 ''login'' | _ \<Rightarrow> HResp 200 ''{}'')"




text \<open>Servers whose login answers with a token claiming expiry 1700000000, and expiry 0.\<close>

definition exp_server :: "nat \<Rightarrow> request \<Rightarrow> http_result" where
  "exp_server t req =
     (case req of ReqLogin u p \<Rightarrow> HResp 200 ''login-exp'' | _ \<Rightarrow> HResp 200 ''{}'')"

definition exp0_server :: "nat \<Rightarrow> request \<Rightarrow> http_result" where
  "exp0_server t req =
     (case req of ReqLogin u p \<Rightarrow> HResp 200 ''login-exp0'' | _ \<Rightarrow> HResp 200 ''{}'')"

section \<open>The events of the client\<close>

declare login_loop.simps [simp del] fetch_loop.simps [simp del]

lemma new_eventsI: "trace s1 = trace s @ d \<Longrightarrow> new_events s s1 = d"
  by (simp add: new_events_def)

lemma emit_trace [simp]: "trace (emit ev s) = trace s @ [ev]"
  by (simp add: emit_def)

lemma step_trace [simp]: "trace (step s) = trace s"
  by (simp add: step_def)

lemma store_token_trace [simp]: "trace (store_token e tok s) = trace s"
  by (simp add: store_token_def step_def Let_def split: option.splits)

lemma login_attempt_trace:
  "login_attempt e s = (r, s1) \<Longrightarrow> trace s1 = trace s @ [Post]"
  by (auto simp add: login_attempt_def Let_def split: http_result.splits option.splits sum.splits if_splits)

lemma backoff_sleep_trace [simp]:
  "trace (backoff_sleep e who a s) = trace s @ [Sleep who a (backoff_wait e (tick s) a)]"
  by (simp add: backoff_sleep_def backoff_wait_def Let_def step_def emit_def)

lemma upt_1_3: "[1 ..< login_max_attempts + 1] = [1, 2]"
  by (simp add: login_max_attempts_def upt_rec)

lemma upt_1_4: "[1 ..< fetch_max_attempts + 1] = [1, 2, 3]"
  by (simp add: fetch_max_attempts_def upt_rec)

lemma async_login_traceD:
  assumes "async_login e s = (r, s1)"
  shows "\<exists>d. trace s1 = trace s @ d \<and> login_events e d
           \<and> (isl r \<longrightarrow> r = Inl login_failure \<and> length d = 4)"
proof -
  let ?s0 = "emit LoginCall s"
  obtain r1 sa where a1: "login_attempt e ?s0 = (r1, sa)" by (cases "login_attempt e ?s0")
  have t1: "trace sa = trace s @ [LoginCall, Post]"
    using login_attempt_trace [OF a1] by simp
  show ?thesis
  proof (cases r1)
    case (Inr u)
    then have "s1 = sa" "r = Inr u"
      using assms a1 unfolding async_login_def upt_1_3 by (simp_all add: login_loop.simps)
    then show ?thesis using t1 by (simp add: login_events_def)
  next
    case (Inl err)
    let ?s2 = "backoff_sleep e OpLogin 1 sa"
    obtain r3 s3 where a3: "login_attempt e ?s2 = (r3, s3)" by (cases "login_attempt e ?s2")
    have t3: "trace s3 = trace ?s2 @ [Post]"
      by (rule login_attempt_trace [OF a3])
    have "s1 = s3 \<and> (isl r \<longrightarrow> r = Inl login_failure)"
      using Inl a1 a3 assms unfolding async_login_def upt_1_3
      by (cases r3) (auto simp add: login_max_attempts_def login_loop.simps)
    then show ?thesis using t1 t3 by (auto simp add: login_events_def)
  qed
qed

lemma token_is_valid_trace:
  "token_is_valid e s = (v, s0) \<Longrightarrow> trace s0 = trace s"
  by (auto simp add: token_is_valid_def split: if_splits)

lemma fetch_attempt_trace:
  assumes "fetch_attempt e req s = (r, s1)"
  shows "\<exists>d. trace s1 = trace s @ d \<and> attempt_events e req (fst (token_is_valid e s)) d"
proof -
  obtain valid s0 where v: "token_is_valid e s = (valid, s0)" by (cases "token_is_valid e s")
  have t0: "trace s0 = trace s" by (rule token_is_valid_trace [OF v])
  obtain li sa where l: "(if \<not> valid then async_login e s0 else (Inr (), s0)) = (li, sa)"
    by (cases "if \<not> valid then async_login e s0 else (Inr (), s0)")
  have pre: "\<exists>pre. trace sa = trace s @ pre \<and> (if valid then pre = [] else login_events e pre)"
  proof (cases valid)
    case True
    then show ?thesis using l t0 by auto
  next
    case False
    then have "async_login e s0 = (li, sa)" using l by simp
    from async_login_traceD [OF this] show ?thesis using False t0 by auto
  qed
  then obtain pre where pre1: "trace sa = trace s @ pre"
    and pre2: "if valid then pre = [] else login_events e pre" by blast
  show ?thesis
  proof (cases li)
    case (Inl err)
    then have "s1 = sa" using assms v l by (simp add: fetch_attempt_def)
    moreover have "\<not> valid" using Inl l by (auto split: if_splits)
    ultimately show ?thesis using pre1 pre2 v
      by (auto simp add: attempt_events_def)
  next
    case (Inr u)
    let ?s2 = "step (emit (Get req) sa)"
    have t2: "trace ?s2 = trace s @ pre @ [Get req]" using pre1 by simp
    have post: "\<exists>post. trace s1 = trace s @ pre @ post \<and>
        (post = [Get req] \<or> (\<exists>d2. post = Get req # d2 \<and> login_events e d2))"
    proof (cases "http e (tick sa) req")
      case HTimeout
      then have "s1 = ?s2" using assms v l Inr by (simp add: fetch_attempt_def Let_def)
      then show ?thesis using t2 by simp
    next
      case HError
      then have "s1 = ?s2" using assms v l Inr by (simp add: fetch_attempt_def Let_def)
      then show ?thesis using t2 by simp
    next
      case (HResp status body)
      show ?thesis
      proof (cases "status = 401")
        case True
        obtain r3 s3 where a3: "async_login e ?s2 = (r3, s3)" by (cases "async_login e ?s2")
        have "s1 = s3" using assms v l Inr HResp True a3
          by (cases r3) (simp_all add: fetch_attempt_def Let_def)
        moreover from async_login_traceD [OF a3] obtain d2
          where "trace s3 = trace ?s2 @ d2" and "login_events e d2" by blast
        ultimately show ?thesis using t2 by auto
      next
        case False
        then have "s1 = ?s2" using assms v l Inr HResp
          by (auto simp add: fetch_attempt_def Let_def split: if_splits option.splits)
        then show ?thesis using t2 by simp
      qed
    qed
    then obtain post where p1: "trace s1 = trace s @ pre @ post"
      and p2: "post = [Get req] \<or> (\<exists>d2. post = Get req # d2 \<and> login_events e d2)" by blast
    have "attempt_events e req valid (pre @ post)"
      unfolding attempt_events_def
      apply (rule exI [of _ pre], rule exI [of _ post])
      using pre2 p2 by auto
    then show ?thesis using p1 v by auto
  qed
qed

lemma login_events_props:
  assumes "login_events e d"
  shows "filter is_get d = []"
    and "takeWhile (\<lambda>ev. \<not> is_get ev) d = d"
    and "length (filter (\<lambda>ev. ev = LoginCall) d) = 1"
    and "length (filter (\<lambda>ev. ev = Post) d) \<le> 2"
    and "List.map_filter (sleep_after OpFetch) d = []"
    and "\<forall>ev\<in>set d. sleep_ok e ev"
  using assms
  apply (auto simp add: login_events_def sleep_ok_def login_max_attempts_def List.map_filter_simps)
  apply (rule exI, rule refl)
  done

lemma attempt_events_props:
  assumes "attempt_events e req valid d"
  shows "logins_before_request d = (if valid then 0 else 1)"
    and "length (filter is_get d) \<le> 1"
    and "List.map_filter (sleep_after OpFetch) d = []"
    and "\<forall>ev\<in>set d. sleep_ok e ev"
proof -
  from assms obtain pre post where d: "d = pre @ post"
    and pre: "if valid then pre = [] else login_events e pre"
    and ne: "if valid then post \<noteq> [] else True"
    and post: "post = [] \<or> post = [Get req] \<or> (\<exists>d2. post = Get req # d2 \<and> login_events e d2)"
    unfolding attempt_events_def by blast
  have tw: "takeWhile (\<lambda>ev. \<not> is_get ev) post = []"
    using post by auto
  show "logins_before_request d = (if valid then 0 else 1)"
  proof (cases valid)
    case True
    then show ?thesis using d pre tw by (simp add: logins_before_request_def)
  next
    case False
    then have le: "login_events e pre" using pre by simp
    have "\<forall>ev\<in>set pre. \<not> is_get ev"
      using login_events_props(1) [OF le] by (simp add: filter_empty_conv)
    then have "takeWhile (\<lambda>ev. \<not> is_get ev) d = pre @ takeWhile (\<lambda>ev. \<not> is_get ev) post"
      using d by (simp add: takeWhile_append2)
    then show ?thesis using False tw login_events_props(3) [OF le]
      by (simp add: logins_before_request_def)
  qed
  have g1: "filter is_get pre = []"
    using pre login_events_props(1) by (cases valid) auto
  have g2: "length (filter is_get post) \<le> 1"
    using post login_events_props(1) by auto
  show "length (filter is_get d) \<le> 1" using d g1 g2 by simp
  have m1: "List.map_filter (sleep_after OpFetch) pre = []"
    using pre login_events_props(5) by (cases valid) (auto simp add: List.map_filter_simps)
  have m2: "List.map_filter (sleep_after OpFetch) post = []"
    using post login_events_props(5) by (auto simp add: List.map_filter_simps)
  show "List.map_filter (sleep_after OpFetch) d = []"
    using d m1 m2 by (simp add: List.map_filter_def)
  have o1: "\<forall>ev\<in>set pre. sleep_ok e ev"
    using pre login_events_props(6) by (cases valid) auto
  have o2: "\<forall>ev\<in>set post. sleep_ok e ev"
    using post login_events_props(6) by (auto simp add: sleep_ok_def)
  show "\<forall>ev\<in>set d. sleep_ok e ev" using d o1 o2 by auto
qed

lemma fetch_loop_trace:
  assumes "fetch_loop e req as s = (r, s1)" and "\<forall>i\<in>set as. 1 \<le> i"
  shows "\<exists>d. trace s1 = trace s @ d
           \<and> length (filter is_get d) \<le> length as
           \<and> (\<forall>ev\<in>set d. sleep_ok e ev)
           \<and> (case r of
                 Inl err \<Rightarrow>
                   List.map_filter (sleep_after OpFetch) d = filter (\<lambda>i. i < fetch_max_attempts) as
                   \<and> err = fetch_failure req
               | Inr v \<Rightarrow> True)"
  using assms
proof (induction as arbitrary: s)
  case Nil
  then show ?case by (auto simp add: List.map_filter_simps fetch_loop.simps)
next
  case (Cons a as)
  obtain r0 s0 where a0: "fetch_attempt e req s = (r0, s0)" by (cases "fetch_attempt e req s")
  from fetch_attempt_trace [OF a0] obtain d0 where t0: "trace s0 = trace s @ d0"
    and ae: "attempt_events e req (fst (token_is_valid e s)) d0" by blast
  note p = attempt_events_props [OF ae]
  show ?case
  proof (cases r0)
    case (Inr v)
    then have "r = Inr v" "s1 = s0" using Cons.prems(1) a0 by (simp_all add: fetch_loop.simps)
    then show ?thesis using t0 p(2) p(4) by auto
  next
    case (Inl err0)
    let ?s2 = "if a < fetch_max_attempts then backoff_sleep e OpFetch a s0 else s0"
    have rec: "fetch_loop e req as ?s2 = (r, s1)"
      using Cons.prems(1) a0 Inl by (simp add: fetch_loop.simps)
    have "\<forall>i\<in>set as. 1 \<le> i" using Cons.prems(2) by simp
    from Cons.IH [OF rec this] obtain d where t1: "trace s1 = trace ?s2 @ d"
      and g: "length (filter is_get d) \<le> length as"
      and ok: "\<forall>ev\<in>set d. sleep_ok e ev"
      and res: "case r of
                 Inl err \<Rightarrow>
                   List.map_filter (sleep_after OpFetch) d = filter (\<lambda>i. i < fetch_max_attempts) as
                   \<and> err = fetch_failure req
               | Inr v \<Rightarrow> True" by blast
    have a1: "1 \<le> a" using Cons.prems(2) by simp
    show ?thesis
    proof (cases "a < fetch_max_attempts")
      case True
      let ?sl = "Sleep OpFetch a (backoff_wait e (tick s0) a)"
      have sok: "sleep_ok e ?sl" using True a1 by (auto simp add: sleep_ok_def)
      have tr: "trace s1 = trace s @ (d0 @ ?sl # d)" using t1 t0 True by simp
      have mf: "List.map_filter (sleep_after OpFetch) (d0 @ ?sl # d)
                  = a # List.map_filter (sleep_after OpFetch) d"
        using p(3) by (simp add: List.map_filter_def)
      show ?thesis
        apply (rule exI [of _ "d0 @ ?sl # d"])
        using tr g ok p(2) p(4) sok res True mf
        by (auto split: sum.splits)
    next
      case False
      have tr: "trace s1 = trace s @ (d0 @ d)" using t1 t0 False by simp
      have mf: "List.map_filter (sleep_after OpFetch) (d0 @ d)
                  = List.map_filter (sleep_after OpFetch) d"
        using p(3) by (simp add: List.map_filter_def)
      show ?thesis
        apply (rule exI [of _ "d0 @ d"])
        using tr g ok p(2) p(4) res False mf
        by (auto split: sum.splits)
    qed
  qed
qed

lemma fetch_calls_trace:
  assumes "fetch e req s = (r, s1)"
  shows "\<exists>sa. fetch_loop e req [1, 2, 3] s = (r, sa) \<and> trace s1 = trace sa
           \<and> calls s1 = calls sa @ [(req, r)]"
proof -
  obtain r1 sa where fl: "fetch_loop e req [1, 2, 3] s = (r1, sa)"
    by (cases "fetch_loop e req [1, 2, 3] s")
  have "fetch e req s = (r1, sa\<lparr>calls := calls sa @ [(req, r1)]\<rparr>)"
    unfolding fetch_def upt_1_4 fl by simp
  then show ?thesis using assms fl by auto
qed

lemma new_events_eq: "trace s1 = trace s @ d \<Longrightarrow> new_events s s1 = d"
  by (simp add: new_events_def)

section \<open>Token validity and the login before a request\<close>

text \<open>
  Claim C1. \<open>_token_is_valid\<close> answers true exactly when the token and the expiry are
  both set (truthy, as \<open>not self._token\<close> and \<open>not self._expiry\<close> test them) and the
  clock reads strictly less than the expiry minus 10 seconds. An attempt of a fetch
  that starts with an invalid token calls \<open>async_login\<close> exactly once before its GET
  (and not at all when the token is valid); the events of a fetch operation start with
  those of this first attempt. The seven fetch methods are \<open>fetch\<close> at their request.
\<close>

theorem token_validity_and_single_login:
  "(fst (token_is_valid e s) \<longleftrightarrow>
      truthy (token s) \<and>
      (\<exists>x. expiry s = Some x \<and> x \<noteq> 0 \<and> time_time e (tick s) < x - 10))
   \<and> logins_before_request (new_events s (snd (fetch_attempt e req s)))
       = (if fst (token_is_valid e s) then 0 else 1)
   \<and> (\<exists>rest. new_events s (snd (fetch e req s))
                = new_events s (snd (fetch_attempt e req s)) @ rest)"
proof (intro conjI)
  show "fst (token_is_valid e s) \<longleftrightarrow>
      truthy (token s) \<and>
      (\<exists>x. expiry s = Some x \<and> x \<noteq> 0 \<and> time_time e (tick s) < x - 10)"
    by (cases "expiry s") (auto simp add: token_is_valid_def)
next
  obtain r0 s0 where a0: "fetch_attempt e req s = (r0, s0)" by (cases "fetch_attempt e req s")
  from fetch_attempt_trace [OF a0] obtain d0 where t0: "trace s0 = trace s @ d0"
    and ae: "attempt_events e req (fst (token_is_valid e s)) d0" by blast
  have n0: "new_events s s0 = d0" by (rule new_events_eq [OF t0])
  show "logins_before_request (new_events s (snd (fetch_attempt e req s)))
       = (if fst (token_is_valid e s) then 0 else 1)"
    using attempt_events_props(1) [OF ae] n0 a0 by simp
  obtain r s1 where f: "fetch e req s = (r, s1)" by (cases "fetch e req s")
  from fetch_calls_trace [OF f] obtain sa where
    fl: "fetch_loop e req [1, 2, 3] s = (r, sa)" and ts: "trace s1 = trace sa" by blast
  have "\<exists>rest. trace sa = trace s0 @ rest"
  proof (cases r0)
    case (Inr v)
    then show ?thesis
      using fl unfolding fetch_loop.simps(2) [of e req 1 "[2, 3]" s] a0 by simp
  next
    case (Inl err)
    let ?s2 = "if 1 < fetch_max_attempts then backoff_sleep e OpFetch 1 s0 else s0"
    have "fetch_loop e req [2, 3] ?s2 = (r, sa)"
      using fl unfolding fetch_loop.simps(2) [of e req 1 "[2, 3]" s] a0 Inl by simp
    from fetch_loop_trace [OF this] obtain d where "trace sa = trace ?s2 @ d" by auto
    then show ?thesis by (cases "1 < fetch_max_attempts") simp_all
  qed
  then obtain rest where "trace s1 = trace s @ d0 @ rest" using ts t0 by auto
  then have "new_events s s1 = d0 @ rest" by (rule new_events_eq)
  then show "\<exists>rest. new_events s (snd (fetch e req s))
                = new_events s (snd (fetch_attempt e req s)) @ rest"
    using n0 a0 f by simp
qed

theorem token_validity_and_single_login_witness:
  "\<not> fst (token_is_valid (scenario ok_server) fresh_client)
   \<and> new_events fresh_client
        (snd (fetch_attempt (scenario ok_server) (ReqStations 1 100) fresh_client))
       = [LoginCall, Post, Get (ReqStations 1 100)]
   \<and> logins_before_request
        (new_events fresh_client
          (snd (fetch_attempt (scenario ok_server) (ReqStations 1 100) fresh_client))) = 1"
proof -
  have invalid: "\<not> fst (token_is_valid (scenario ok_server) fresh_client)"
    by (simp add: token_is_valid_def fresh_client_def)
  have run: "new_events fresh_client
        (snd (fetch_attempt (scenario ok_server) (ReqStations 1 100) fresh_client))
       = [LoginCall, Post, Get (ReqStations 1 100)]"
    by code_simp
  have "logins_before_request
        (new_events fresh_client
          (snd (fetch_attempt (scenario ok_server) (ReqStations 1 100) fresh_client))) = 1"
    using token_validity_and_single_login
      [of "scenario ok_server" fresh_client "ReqStations 1 100"] invalid
    by simp
  then show ?thesis using invalid run by simp
qed

section \<open>The expiry stored by a login\<close>

lemma py_float_truthy: "py_float e v = Some c \<Longrightarrow> c \<noteq> 0 \<Longrightarrow> truthy v"
  by (cases v) (auto simp add: py_float_def split: if_splits)

lemma expiry_claim_unique: "expiry_claim e tok c \<Longrightarrow> expiry_claim e tok c' \<Longrightarrow> c = c'"
  by (auto simp add: expiry_claim_def)

lemma decode_jwt_exp_claim:
  "decode_jwt_exp e tok = Some c \<Longrightarrow> expiry_claim e tok c"
  by (auto simp add: decode_jwt_exp_def expiry_claim_def padded_def Let_def py_get_def
      split: pyval.splits option.splits if_splits sum.splits)

lemma claim_decode_jwt_exp:
  assumes "expiry_claim e tok c" and "c \<noteq> 0"
  shows "decode_jwt_exp e tok = Some c"
proof -
  from assms(1) obtain t bytes kvs v where
    "tok = PStr t" "2 \<le> length (split_on CHR ''.'' t)"
    "urlsafe_b64decode e (padded (split_on CHR ''.'' t ! 1)) = Some bytes"
    "json_loads e bytes = Some (PDict kvs)"
    "dict_lookup kvs (PStr ''exp'') = Some v"
    and f: "py_float e v = Some c"
    unfolding expiry_claim_def by blast
  moreover have "truthy v" using py_float_truthy [OF f assms(2)] .
  ultimately show ?thesis
    by (simp add: decode_jwt_exp_def padded_def Let_def py_get_def)
qed

lemma store_token_expiry:
  "token (store_token e tok s) = tok \<and>
   expiry (store_token e tok s) =
     (case decode_jwt_exp e tok of
        Some c \<Rightarrow> if c \<noteq> 0 then Some c
                  else Some (time_time e (tick (store_token e tok s) - 1) + 600)
      | None \<Rightarrow> Some (time_time e (tick (store_token e tok s) - 1) + 600))"
  by (simp add: store_token_def step_def Let_def split: option.splits)

lemma login_attempt_expiry:
  assumes "login_attempt e s = (Inr u, s1)"
  shows "truthy (token s1) \<and>
   expiry s1 =
     (case decode_jwt_exp e (token s1) of
        Some c \<Rightarrow> if c \<noteq> 0 then Some c else Some (time_time e (tick s1 - 1) + 600)
      | None \<Rightarrow> Some (time_time e (tick s1 - 1) + 600))"
proof -
  from assms obtain tok s0 where s1: "s1 = store_token e tok s0" and tr: "truthy tok"
    by (auto simp add: login_attempt_def Let_def
        split: http_result.splits option.splits sum.splits if_splits)
  show ?thesis unfolding s1 using store_token_expiry [of e tok s0] tr by simp
qed

lemma async_login_attempt:
  assumes "async_login e s = (Inr u, s1)"
  shows "\<exists>s0. login_attempt e s0 = (Inr u, s1)"
proof -
  let ?s0 = "emit LoginCall s"
  obtain r1 sa where a1: "login_attempt e ?s0 = (r1, sa)" by (cases "login_attempt e ?s0")
  show ?thesis
  proof (cases r1)
    case (Inr v)
    then have "s1 = sa"
      using assms a1 unfolding async_login_def upt_1_3 by (simp add: login_loop.simps)
    then show ?thesis using a1 Inr by auto
  next
    case (Inl err)
    let ?s2 = "backoff_sleep e OpLogin 1 sa"
    obtain r3 s3 where a3: "login_attempt e ?s2 = (r3, s3)" by (cases "login_attempt e ?s2")
    have "r3 = Inr u \<and> s1 = s3"
      using Inl a1 a3 assms unfolding async_login_def upt_1_3
      by (cases r3) (auto simp add: login_max_attempts_def login_loop.simps)
    then show ?thesis using a3 by auto
  qed
qed

lemma exp0_claim: "expiry_claim (scenario exp0_server) (PStr ''h.eyJleHAiOjB9.s'') 0"
  unfolding expiry_claim_def
  apply (rule exI [of _ "''h.eyJleHAiOjB9.s''"])
  apply (rule exI [of _ "''{\"exp\":0}''"])
  apply (rule exI [of _ "[(PStr ''exp'', PNum 0)]"])
  apply (rule exI [of _ "PNum 0"])
  apply (simp add: scenario_def toy_b64_def toy_json_def padded_def py_float_def)
  done

lemma exp_claim:
  "expiry_claim (scenario exp_server) (PStr ''h.eyJleHAiOjE3MDAwMDAwMDB9.s'') 1700000000"
  unfolding expiry_claim_def
  apply (rule exI [of _ "''h.eyJleHAiOjE3MDAwMDAwMDB9.s''"])
  apply (rule exI [of _ "''{\"exp\":1700000000}''"])
  apply (rule exI [of _ "[(PStr ''exp'', PNum 1700000000)]"])
  apply (rule exI [of _ "PNum 1700000000"])
  apply (simp add: scenario_def toy_b64_def toy_json_def padded_def py_float_def)
  done

text \<open>
  Claim C2, amended. After a successful login the stored token is truthy. When the
  token has an expiry claim other than zero, the stored expiry is that claim. When it
  has no expiry claim (decoding fails at any step, or the claim is absent) or the claim
  is zero, the stored expiry is the clock, read last in the login, plus 600 seconds.
  As stated the claim fails for a claim of zero: \<open>if exp:\<close> treats it as absent.
\<close>

theorem stored_expiry_after_login:
  assumes "async_login e s = (Inr u, s1)"
  shows "truthy (token s1)
     \<and> (\<forall>c. expiry_claim e (token s1) c \<and> c \<noteq> 0 \<longrightarrow> expiry s1 = Some c)
     \<and> ((\<forall>c. expiry_claim e (token s1) c \<longrightarrow> c = 0)
          \<longrightarrow> expiry s1 = Some (time_time e (tick s1 - 1) + 600))"
proof -
  from async_login_attempt [OF assms] obtain s0 where "login_attempt e s0 = (Inr u, s1)" ..
  note la = login_attempt_expiry [OF this]
  have a: "expiry s1 = Some c" if "expiry_claim e (token s1) c" "c \<noteq> 0" for c
    using la claim_decode_jwt_exp [OF that] that(2) by simp
  have b: "expiry s1 = Some (time_time e (tick s1 - 1) + 600)"
    if z: "\<forall>c. expiry_claim e (token s1) c \<longrightarrow> c = 0"
  proof (cases "decode_jwt_exp e (token s1)")
    case None
    then show ?thesis using la by simp
  next
    case (Some c)
    then have "c = 0" using decode_jwt_exp_claim z by blast
    then show ?thesis using la Some by simp
  qed
  show ?thesis using la a b by blast
qed

theorem stored_expiry_after_login_witness:
  "fst (async_login (scenario exp_server) fresh_client) = Inr ()
   \<and> expiry_claim (scenario exp_server)
        (token (snd (async_login (scenario exp_server) fresh_client))) 1700000000
   \<and> expiry (snd (async_login (scenario exp_server) fresh_client)) = Some 1700000000
   \<and> fst (async_login (scenario exp0_server) fresh_client) = Inr ()
   \<and> expiry (snd (async_login (scenario exp0_server) fresh_client))
       = Some (time_time (scenario exp0_server)
                (tick (snd (async_login (scenario exp0_server) fresh_client)) - 1) + 600)"
proof -
  let ?s1 = "snd (async_login (scenario exp_server) fresh_client)"
  let ?s0 = "snd (async_login (scenario exp0_server) fresh_client)"
  have ok1: "fst (async_login (scenario exp_server) fresh_client) = Inr ()" by code_simp
  have ok0: "fst (async_login (scenario exp0_server) fresh_client) = Inr ()" by code_simp
  have tok1: "token ?s1 = PStr ''h.eyJleHAiOjE3MDAwMDAwMDB9.s''" by code_simp
  have tok0: "token ?s0 = PStr ''h.eyJleHAiOjB9.s''" by code_simp
  have r1: "async_login (scenario exp_server) fresh_client = (Inr (), ?s1)"
    using ok1 by (simp add: prod_eq_iff)
  have r0: "async_login (scenario exp0_server) fresh_client = (Inr (), ?s0)"
    using ok0 by (simp add: prod_eq_iff)
  have c1: "expiry_claim (scenario exp_server) (token ?s1) 1700000000"
    using exp_claim tok1 by simp
  have c0: "\<forall>c. expiry_claim (scenario exp0_server) (token ?s0) c \<longrightarrow> c = 0"
    using exp0_claim tok0 expiry_claim_unique by auto
  have e1: "expiry ?s1 = Some 1700000000"
    using stored_expiry_after_login [OF r1] c1 by auto
  have e0: "expiry ?s0 = Some (time_time (scenario exp0_server) (tick ?s0 - 1) + 600)"
    using stored_expiry_after_login [OF r0] c0 by blast
  show ?thesis using ok1 ok0 c1 e1 e0 by blast
qed

theorem zero_expiry_claim_counterexample:
  "length (split_on CHR ''.'' ''h.eyJleHAiOjB9.s'') = 3
   \<and> expiry_claim (scenario exp0_server) (PStr ''h.eyJleHAiOjB9.s'') 0
   \<and> fst (async_login (scenario exp0_server) fresh_client) = Inr ()
   \<and> token (snd (async_login (scenario exp0_server) fresh_client)) = PStr ''h.eyJleHAiOjB9.s''
   \<and> expiry (snd (async_login (scenario exp0_server) fresh_client)) = Some 1600
   \<and> expiry (snd (async_login (scenario exp0_server) fresh_client)) \<noteq> Some 0"
proof -
  have a: "length (split_on CHR ''.'' ''h.eyJleHAiOjB9.s'') = 3" by code_simp
  have b: "fst (async_login (scenario exp0_server) fresh_client) = Inr ()" by code_simp
  have c: "token (snd (async_login (scenario exp0_server) fresh_client))
             = PStr ''h.eyJleHAiOjB9.s''" by code_simp
  have d: "expiry (snd (async_login (scenario exp0_server) fresh_client)) = Some 1600"
    by code_simp
  show ?thesis using a b c d exp0_claim by simp
qed

section \<open>Retries and backoff\<close>













end
